theory Spec2Isabelle
  imports Complex_Main "HOL-Library.Multiset" "HOL-Library.Sublist"
begin

section \<open>Wire values\<close>

text \<open>
  The client receives its data as JSON, so a field declared optional in
  \<^verbatim>\<open>types.ts\<close> (\<^verbatim>\<open>realized_pnl?: number\<close>) can reach the code in three
  shapes: the key is absent (\<^verbatim>\<open>undefined\<close>), the key carries \<^verbatim>\<open>null\<close>, or the
  key carries a number. JavaScript keeps \<^verbatim>\<open>undefined\<close> and \<^verbatim>\<open>null\<close> apart under
  \<^verbatim>\<open>===\<close>, so the model keeps them apart as well. The type of the amounts is
  left open: the derivation needs a zero and an addition and assumes no law of
  either, so what is proved of it for every such type holds for IEEE doubles,
  whose addition rounds. Concrete series are computed over the reals, on amounts
  that are exact as doubles.
\<close>

datatype 'a optional = Undefined | Null | Val 'a

text \<open>
  The fields of \<^verbatim>\<open>Trade\<close> and \<^verbatim>\<open>Position\<close> that the derivations read. A trade's
  \<open>timestamp\<close> stands for the number \<^verbatim>\<open>new Date(t.timestamp).getTime()\<close> of a
  valid date string.
\<close>

record 'a trade =
  ticker :: string
  timestamp :: int
  realized_pnl :: "'a optional"

record position =
  position_ticker :: string

section \<open>PnLChart: the cumulative P\&L series\<close>

record 'a ChartDataPoint =
  point_timestamp :: int
  cumulative_pnl :: 'a

text \<open>\<^verbatim>\<open>t.realized_pnl !== undefined\<close>, the filter of \<^verbatim>\<open>PnLChart.tsx\<close>.\<close>

definition not_undefined :: "'a trade \<Rightarrow> bool" where
  "not_undefined t = (realized_pnl t \<noteq> Undefined)"

text \<open>
  \<^verbatim>\<open>trade.realized_pnl !== undefined && trade.realized_pnl !== null\<close>, the test of
  \<^verbatim>\<open>TradesTable.tsx\<close> for a trade that carries a realized P\&L.
\<close>

definition has_realized_pnl :: "'a trade \<Rightarrow> bool" where
  "has_realized_pnl t = (realized_pnl t \<noteq> Undefined \<and> realized_pnl t \<noteq> Null)"

text \<open>\<^verbatim>\<open>trade.realized_pnl || 0\<close>: a falsy operand (undefined, null, 0) gives 0.\<close>

definition pnl_or_zero :: "'a::zero optional \<Rightarrow> 'a" where
  "pnl_or_zero v = (case v of Val x \<Rightarrow> (if x = 0 then 0 else x) | _ \<Rightarrow> 0)"

text \<open>The callback of \<^verbatim>\<open>reduce\<close>: read the last running total, push one point.\<close>

definition reduce_step :: "'a::{zero,plus} ChartDataPoint list \<Rightarrow> 'a trade \<Rightarrow> 'a ChartDataPoint list" where
  "reduce_step acc t =
     (let prevPnL = (if length acc > 0 then cumulative_pnl (last acc) else 0);
          newPnL = prevPnL + pnl_or_zero (realized_pnl t)
      in acc @ [\<lparr>point_timestamp = timestamp t, cumulative_pnl = newPnL\<rparr>])"

text \<open>
  \<^verbatim>\<open>trades.filter(...).sort((a, b) => time a - time b).reduce(..., [])\<close>.
  \<^verbatim>\<open>Array.prototype.sort\<close> is stable, as \<open>sort_key\<close> is.
\<close>

definition chartData :: "'a::{zero,plus} trade list \<Rightarrow> 'a ChartDataPoint list" where
  "chartData trades = foldl reduce_step [] (sort_key timestamp (filter not_undefined trades))"

text \<open>The running total the chart ends on (0 for an empty series).\<close>

definition final_total :: "'a::zero ChartDataPoint list \<Rightarrow> 'a" where
  "final_total ps = (if length ps > 0 then cumulative_pnl (last ps) else 0)"

section \<open>App: the active tickers\<close>

text \<open>
  \<^verbatim>\<open>new Set(iterable)\<close> adds the elements in order; an element already in the set
  is skipped, and iteration of the set (\<^verbatim>\<open>Array.from\<close>) follows insertion order.
\<close>

definition set_add :: "'a list \<Rightarrow> 'a \<Rightarrow> 'a list" where
  "set_add seen x = (if x \<in> set seen then seen else seen @ [x])"

definition new_Set :: "'a list \<Rightarrow> 'a list" where
  "new_Set xs = foldl set_add [] xs"

definition default_tickers :: "string list" where
  "default_tickers = [''AAPL'', ''TSLA'', ''GME'']"

definition uniqueTickers :: "position list \<Rightarrow> 'a trade list \<Rightarrow> string list" where
  "uniqueTickers ps ts =
     take 10 (new_Set (map position_ticker ps @ map ticker (take 10 ts) @ default_tickers))"

text \<open>
  The derivation as the specification words it, for comparison with \<open>uniqueTickers\<close>:
  the union of the position tickers, the first 10 recent-trade tickers and the
  defaults, each ticker kept at its first occurrence, truncated to \<open>cap\<close>.
\<close>

function first_occurrences :: "'a list \<Rightarrow> 'a list" where
  "first_occurrences [] = []"
| "first_occurrences (x # xs) = x # first_occurrences (removeAll x xs)"
  by pat_completeness auto
termination
  by (relation "measure length") (simp_all add: less_Suc_eq_le)

definition activeTickers :: "string list \<Rightarrow> string list \<Rightarrow> string list \<Rightarrow> nat \<Rightarrow> string list" where
  "activeTickers positionTickers recentTradeTickers defaults cap =
     take cap (first_occurrences (positionTickers @ take 10 recentTradeTickers @ defaults))"

section \<open>App: reconciling pushed envelopes with polled snapshots\<close>

text \<open>
  A decoded frame is whatever \<^verbatim>\<open>JSON.parse\<close> returned; the casts of the handler
  (\<^verbatim>\<open>message.data as Signal\<close>) check nothing at run time, so payloads stay
  untyped values.
\<close>

datatype jsval =
    JUndefined
  | JNull
  | JBool bool
  | JNum real
  | JStr string
  | JArr "jsval list"
  | JObj "(string \<times> jsval) list"

datatype js_error = TypeError | SyntaxError

text \<open>
  Reading a property (\<^verbatim>\<open>message.type\<close>, \<^verbatim>\<open>message.data\<close>): a TypeError on
  \<^verbatim>\<open>null\<close> and \<^verbatim>\<open>undefined\<close>, the stored value on an object that has the key,
  \<^verbatim>\<open>undefined\<close> otherwise (no primitive or array has a property of these two
  names). An object is the list of its properties, each key once.
\<close>

fun get_property :: "jsval \<Rightarrow> string \<Rightarrow> js_error + jsval" where
  "get_property JUndefined k = Inl TypeError"
| "get_property JNull k = Inl TypeError"
| "get_property (JObj kvs) k = Inr (case map_of kvs k of Some v \<Rightarrow> v | None \<Rightarrow> JUndefined)"
| "get_property v k = Inr JUndefined"

text \<open>Truthiness, as \<^verbatim>\<open>||\<close> tests it.\<close>

fun truthy :: "jsval \<Rightarrow> bool" where
  "truthy JUndefined = False"
| "truthy JNull = False"
| "truthy (JBool b) = b"
| "truthy (JNum x) = (x \<noteq> 0)"
| "truthy (JStr s) = (s \<noteq> [])"
| "truthy (JArr vs) = True"
| "truthy (JObj kvs) = True"

datatype effect =
    RefetchPositions
  | RefetchTrades
  | ConsoleLog
  | ConsoleError
  | OnMessage jsval
  | NewWebSocket nat
  | CloseWebSocket nat
  | SetTimeout nat nat
  | ClearTimeout nat

text \<open>The calls that act on the channel: sockets and reconnect timers.\<close>

fun channel_call :: "effect \<Rightarrow> bool" where
  "channel_call (NewWebSocket i) = True"
| "channel_call (CloseWebSocket i) = True"
| "channel_call (SetTimeout t d) = True"
| "channel_call (ClearTimeout t) = True"
| "channel_call e = False"

text \<open>
  The state of \<^verbatim>\<open>App\<close>: its two \<^verbatim>\<open>useState\<close> cells and the \<^verbatim>\<open>data\<close> of its
  three queries (\<^verbatim>\<open>positions\<close> and \<^verbatim>\<open>trades\<close> default to the empty list,
  \<^verbatim>\<open>performance\<close> is \<^verbatim>\<open>undefined\<close> until the first fetch).
\<close>

record app_state =
  liveSignals :: "jsval list"
  livePerformance :: jsval
  positions :: "position list"
  trades :: "real trade list"
  performance :: jsval

definition initial_app :: app_state where
  "initial_app = \<lparr>liveSignals = [], livePerformance = JNull, positions = [], trades = [],
     performance = JUndefined\<rparr>"

text \<open>
  \<^verbatim>\<open>handleWebSocketMessage\<close>. The result is the new state and the calls made, in
  order, or the error thrown. \<^verbatim>\<open>[signal, ...prev].slice(0, 50)\<close> keeps the first
  50 entries.
\<close>

definition handleWebSocketMessage :: "app_state \<Rightarrow> jsval \<Rightarrow> js_error + (app_state \<times> effect list)" where
  "handleWebSocketMessage st message =
     (case get_property message ''type'' of
        Inl e \<Rightarrow> Inl e
      | Inr ty \<Rightarrow>
          if ty = JStr ''signal'' then
            (case get_property message ''data'' of
               Inl e \<Rightarrow> Inl e
             | Inr signal \<Rightarrow>
                 Inr (st\<lparr>liveSignals := take 50 (signal # liveSignals st)\<rparr>,
                      [RefetchPositions, RefetchTrades]))
          else if ty = JStr ''performance'' then
            (case get_property message ''data'' of
               Inl e \<Rightarrow> Inl e
             | Inr d \<Rightarrow> Inr (st\<lparr>livePerformance := d\<rparr>, []))
          else if ty = JStr ''position_update'' then Inr (st, [RefetchPositions])
          else Inr (st, []))"

text \<open>\<^verbatim>\<open>const displayPerformance = livePerformance || performance\<close>.\<close>

definition displayPerformance :: "app_state \<Rightarrow> jsval" where
  "displayPerformance st = (if truthy (livePerformance st) then livePerformance st else performance st)"





text \<open>The state after a handled envelope; a throwing handler leaves it as it was.\<close>

definition after_push :: "app_state \<Rightarrow> jsval \<Rightarrow> app_state" where
  "after_push st message =
     (case handleWebSocketMessage st message of Inl e \<Rightarrow> st | Inr r \<Rightarrow> fst r)"

text \<open>The calls the handler made on an envelope; none when it threw at once.\<close>

definition push_calls :: "app_state \<Rightarrow> jsval \<Rightarrow> effect list" where
  "push_calls st message =
     (case handleWebSocketMessage st message of Inl e \<Rightarrow> [] | Inr r \<Rightarrow> snd r)"

text \<open>An envelope \<^verbatim>\<open>{ type: tag, data: payload }\<close>.\<close>

definition envelope :: "string \<Rightarrow> jsval \<Rightarrow> jsval" where
  "envelope tag payload = JObj [(''type'', JStr tag), (''data'', payload)]"

section \<open>useWebSocket: the push channel client\<close>

text \<open>
  The hook's own state (\<^verbatim>\<open>isConnected\<close>, \<^verbatim>\<open>error\<close>, the three refs) together
  with what the platform holds for it: the sockets created so far with their
  \<^verbatim>\<open>readyState\<close> (a socket is named by its index), the pending timers as
  (id, delay in ms) and the next timer id (ids start at 1: a timer id is never
  falsy). \<open>url_valid\<close> says whether \<^verbatim>\<open>new WebSocket(WS_URL)\<close> returns or
  throws. \<open>app\<close> is the state of the component that subscribed.
\<close>

datatype ready_state = CONNECTING | OPEN | CLOSING | CLOSED

record client_state =
  app :: app_state
  isConnected :: bool
  error :: "string option"
  wsRef :: "nat option"
  reconnectTimeoutRef :: "nat option"
  reconnectAttempts :: nat
  sockets :: "ready_state list"
  timers :: "(nat \<times> nat) list"
  nextTimer :: nat
  url_valid :: bool

definition initial_client :: "bool \<Rightarrow> client_state" where
  "initial_client ok = \<lparr>app = initial_app, isConnected = False, error = None, wsRef = None,
     reconnectTimeoutRef = None, reconnectAttempts = 0, sockets = [], timers = [],
     nextTimer = 1, url_valid = ok\<rparr>"

text \<open>\<^verbatim>\<open>connect\<close>: create the socket and store it, or report the constructor's throw.\<close>

definition connect :: "client_state \<Rightarrow> client_state \<times> effect list" where
  "connect st =
     (if url_valid st then
        (st\<lparr>sockets := sockets st @ [CONNECTING], wsRef := Some (length (sockets st))\<rparr>,
         [NewWebSocket (length (sockets st))])
      else (st\<lparr>error := Some ''Failed to create WebSocket connection''\<rparr>, [ConsoleError]))"

definition onopen :: "client_state \<Rightarrow> client_state \<times> effect list" where
  "onopen st = (st\<lparr>isConnected := True, error := None, reconnectAttempts := 0\<rparr>, [ConsoleLog])"

text \<open>
  \<^verbatim>\<open>ws.onmessage\<close>. Its argument is the outcome of \<^verbatim>\<open>JSON.parse(event.data)\<close>: the
  decoded value, or the error thrown. The \<^verbatim>\<open>try\<close> block holds both the decode
  and the call of the subscriber, so an error of either reaches the \<^verbatim>\<open>catch\<close>.
\<close>

definition onmessage :: "client_state \<Rightarrow> js_error + jsval \<Rightarrow> client_state \<times> effect list" where
  "onmessage st parsed =
     (case parsed of
        Inl e \<Rightarrow> (st, [ConsoleError])
      | Inr message \<Rightarrow>
          (case handleWebSocketMessage (app st) message of
             Inl e \<Rightarrow> (st, [OnMessage message, ConsoleError])
           | Inr r \<Rightarrow> (st\<lparr>app := fst r\<rparr>, OnMessage message # snd r)))"

definition onerror :: "client_state \<Rightarrow> client_state \<times> effect list" where
  "onerror st = (st\<lparr>error := Some ''WebSocket connection error''\<rparr>, [ConsoleError])"

definition maxAttempts :: nat where
  "maxAttempts = 10"

text \<open>\<^verbatim>\<open>Math.min(1000 * Math.pow(2, attempts), 30000)\<close>, in milliseconds.\<close>

definition reconnect_delay :: "nat \<Rightarrow> nat" where
  "reconnect_delay attempts = min (1000 * 2 ^ attempts) 30000"

definition onclose :: "client_state \<Rightarrow> client_state \<times> effect list" where
  "onclose st =
     (let st1 = st\<lparr>isConnected := False\<rparr>;
          delay = reconnect_delay (reconnectAttempts st)
      in if reconnectAttempts st < maxAttempts then
           (st1\<lparr>timers := timers st @ [(nextTimer st, delay)],
                nextTimer := Suc (nextTimer st),
                reconnectTimeoutRef := Some (nextTimer st)\<rparr>,
            [ConsoleLog, ConsoleLog, SetTimeout (nextTimer st) delay])
         else (st1\<lparr>error := Some ''Failed to connect after multiple attempts''\<rparr>, [ConsoleLog]))"

text \<open>The callback of the reconnect timer.\<close>

definition reconnect_timer :: "client_state \<Rightarrow> client_state \<times> effect list" where
  "reconnect_timer st = connect (st\<lparr>reconnectAttempts := reconnectAttempts st + 1\<rparr>)"

text \<open>
  \<^verbatim>\<open>ws.close()\<close> on the platform's side: a socket that is connecting or open
  starts closing, one that is closing or closed stays as it is.
\<close>

definition close_socket :: "ready_state list \<Rightarrow> nat \<Rightarrow> ready_state list" where
  "close_socket ss i =
     (if i < length ss \<and> (ss ! i = CONNECTING \<or> ss ! i = OPEN) then ss[i := CLOSING] else ss)"

text \<open>The cleanup of the effect: clear the stored timer, close the stored socket.\<close>

definition cleanup :: "client_state \<Rightarrow> client_state \<times> effect list" where
  "cleanup st =
     (let (st1, e1) =
            (case reconnectTimeoutRef st of
               None \<Rightarrow> (st, [])
             | Some t \<Rightarrow> (st\<lparr>timers := filter (\<lambda>p. fst p \<noteq> t) (timers st)\<rparr>, [ClearTimeout t]))
      in case wsRef st1 of
           None \<Rightarrow> (st1, e1)
         | Some i \<Rightarrow> (st1\<lparr>sockets := close_socket (sockets st1) i\<rparr>, e1 @ [CloseWebSocket i]))"

text \<open>
  What can happen to the hook: the effect runs (\<open>Mount\<close>) or is cleaned up
  (\<open>Unmount\<close>), a socket fires one of its four events, a timer fires. The platform
  fires \<^verbatim>\<open>open\<close> on a connecting socket only, \<^verbatim>\<open>message\<close> on an open socket only,
  \<^verbatim>\<open>error\<close> and \<^verbatim>\<open>close\<close> on a socket that is not closed yet, and a timer that is
  pending; \<open>step\<close> is \<open>None\<close> on an event the platform cannot fire. Every socket
  carries the same four handlers.
\<close>

datatype event =
    Mount
  | Unmount
  | SocketOpen nat
  | SocketMessage nat "js_error + jsval"
  | SocketError nat
  | SocketClose nat
  | TimerFire nat

fun step :: "client_state \<Rightarrow> event \<Rightarrow> (client_state \<times> effect list) option" where
  "step st Mount = Some (connect st)"
| "step st Unmount = Some (cleanup st)"
| "step st (SocketOpen i) =
     (if i < length (sockets st) \<and> sockets st ! i = CONNECTING
      then Some (onopen (st\<lparr>sockets := (sockets st)[i := OPEN]\<rparr>)) else None)"
| "step st (SocketMessage i parsed) =
     (if i < length (sockets st) \<and> sockets st ! i = OPEN
      then Some (onmessage st parsed) else None)"
| "step st (SocketError i) =
     (if i < length (sockets st) \<and> sockets st ! i \<noteq> CLOSED
      then Some (onerror st) else None)"
| "step st (SocketClose i) =
     (if i < length (sockets st) \<and> sockets st ! i \<noteq> CLOSED
      then Some (onclose (st\<lparr>sockets := (sockets st)[i := CLOSED]\<rparr>)) else None)"
| "step st (TimerFire t) =
     (if t \<in> fst ` set (timers st)
      then Some (reconnect_timer (st\<lparr>timers := filter (\<lambda>p. fst p \<noteq> t) (timers st)\<rparr>))
      else None)"

text \<open>A run: the state after the events and the calls each event made.\<close>

fun run :: "client_state \<Rightarrow> event list \<Rightarrow> (client_state \<times> effect list list) option" where
  "run st [] = Some (st, [])"
| "run st (ev # evs) =
     (case step st ev of
        None \<Rightarrow> None
      | Some (st1, effs) \<Rightarrow>
          (case run st1 evs of
             None \<Rightarrow> None
           | Some (st2, rest) \<Rightarrow> Some (st2, effs # rest)))"

text \<open>The delays of the timers an event list scheduled, in order.\<close>

fun scheduled_delay :: "effect \<Rightarrow> nat list" where
  "scheduled_delay (SetTimeout t d) = [d]"
| "scheduled_delay e = []"

definition scheduled_delays :: "effect list list \<Rightarrow> nat list" where
  "scheduled_delays effs = concat (map scheduled_delay (concat effs))"

text \<open>
  \<open>n\<close> consecutive closes with no open in between, on a client whose sockets so far
  number \<open>s\<close> + 1 and whose next timer id is \<open>t\<close>: the live socket closes, the
  timer scheduled for it fires and creates the next socket, which closes in turn.
\<close>

definition close_cycles :: "nat \<Rightarrow> nat \<Rightarrow> nat \<Rightarrow> event list" where
  "close_cycles s t n = concat (map (\<lambda>k. [SocketClose (s + k), TimerFire (t + k)]) [0..<n])"

text \<open>
  The reconnect delays as the specification words them: the attempt number goes
  up by one on every close and back to 0 on every open; a close at attempt \<open>k\<close>
  below the ceiling of 10 waits min(1000 * 2^k, 30000) ms, a close at the ceiling
  schedules nothing.
\<close>

fun expected_delays :: "nat \<Rightarrow> event list \<Rightarrow> nat list" where
  "expected_delays k [] = []"
| "expected_delays k (SocketClose i # evs) =
     (if k < 10 then [min (1000 * 2 ^ k) 30000] else []) @ expected_delays (Suc k) evs"
| "expected_delays k (SocketOpen i # evs) = expected_delays 0 evs"
| "expected_delays k (ev # evs) = expected_delays k evs"

text \<open>
  The states of a client that mounted once, \<open>k\<close> closes after the last open: one
  socket is not closed and no timer is pending, with the counter at \<open>k\<close>; or
  every socket is closed and one timer is pending, with the counter at \<open>k\<close> - 1;
  or every socket is closed and no timer is pending.
\<close>

definition single_connection :: "nat \<Rightarrow> client_state \<Rightarrow> bool" where
  "single_connection k st =
     ((\<exists>i < length (sockets st). sockets st ! i \<noteq> CLOSED
          \<and> (\<forall>j < length (sockets st). j \<noteq> i \<longrightarrow> sockets st ! j = CLOSED))
        \<and> timers st = [] \<and> reconnectAttempts st = k
      \<or> (\<forall>j < length (sockets st). sockets st ! j = CLOSED)
        \<and> (\<exists>t d. timers st = [(t, d)]) \<and> Suc (reconnectAttempts st) = k
      \<or> (\<forall>j < length (sockets st). sockets st ! j = CLOSED) \<and> timers st = [])"

section \<open>Example inputs\<close>

text \<open>
  The trade list of the specification's scenario, once with the first trade's
  realized P\&L as JSON \<^verbatim>\<open>null\<close> and once with the key absent.
\<close>

definition scenario_trades :: "real optional \<Rightarrow> real trade list" where
  "scenario_trades first_pnl =
     [\<lparr>ticker = ''AAPL'', timestamp = 1, realized_pnl = first_pnl\<rparr>,
      \<lparr>ticker = ''AAPL'', timestamp = 2, realized_pnl = Val 10\<rparr>,
      \<lparr>ticker = ''AAPL'', timestamp = 3, realized_pnl = Val (- 4)\<rparr>]"

definition null_trade :: "real trade" where
  "null_trade = \<lparr>ticker = ''AAPL'', timestamp = 1, realized_pnl = Null\<rparr>"

text \<open>Ten positions in ten distinct tickers, none of them a default ticker.\<close>

definition ten_positions :: "position list" where
  "ten_positions = map (\<lambda>s. \<lparr>position_ticker = s\<rparr>)
     [''T0'', ''T1'', ''T2'', ''T3'', ''T4'', ''T5'', ''T6'', ''T7'', ''T8'', ''T9'']"

text \<open>
  Two values of the interface \<^verbatim>\<open>Performance\<close> that differ, one pushed and one
  polled.
\<close>

definition pushed_performance :: jsval where
  "pushed_performance =
     JObj [(''total_pnl'', JNum 120), (''daily_pnl'', JNum 20), (''win_rate'', JNum 0.6),
       (''total_trades'', JNum 10), (''winning_trades'', JNum 6), (''losing_trades'', JNum 4),
       (''avg_win'', JNum 30), (''avg_loss'', JNum (- 15)), (''sharpe_ratio'', JNum 1.2)]"



text \<open>The client once its effect has run: one socket, still connecting.\<close>

definition mounted_client :: client_state where
  "mounted_client = fst (connect (initial_client True))"

text \<open>
  The client after its first socket closed and the reconnect timer created the
  second socket: the counter is at 1.
\<close>

definition reconnecting_client :: client_state where
  "reconnecting_client = (initial_client True)\<lparr>sockets := [CLOSED, CONNECTING], wsRef := Some 1,
     reconnectTimeoutRef := Some 1, reconnectAttempts := 1, nextTimer := 2\<rparr>"

text \<open>
  Three closes with an open after the first: the platform fires close, timer,
  open, close, timer, close.
\<close>

definition reopened_trace :: "event list" where
  "reopened_trace =
     [SocketClose 0, TimerFire 1, SocketOpen 1, SocketClose 1, TimerFire 2, SocketClose 2]"

text \<open>
  The effect run a second time after its cleanup, while the first socket is still
  closing; then both sockets close.
\<close>

definition second_mount_trace :: "event list" where
  "second_mount_trace = [Mount, Unmount, Mount, SocketClose 0, SocketClose 1]"

text \<open>
  A teardown while the socket is open, then what the platform delivers afterwards:
  the close event of the socket, the timer that close event scheduled, the socket
  the timer created, and a frame on that socket.
\<close>

definition late_frame :: jsval where
  "late_frame = envelope ''position_update'' (JObj [(''ticker'', JStr ''GME'')])"

definition teardown_trace :: "event list" where
  "teardown_trace =
     [Mount, SocketOpen 0, Unmount, SocketClose 0, TimerFire 1, SocketOpen 1,
      SocketMessage 1 (Inr late_frame)]"

text \<open>
  The client after its first socket closed, waiting for the reconnect timer, and
  the client after its first socket opened.
\<close>

definition waiting_client :: client_state where
  "waiting_client = (initial_client True)\<lparr>sockets := [CLOSED], wsRef := Some 0,
     timers := [(1, 1000)], reconnectTimeoutRef := Some 1, nextTimer := 2\<rparr>"

definition open_client :: client_state where
  "open_client = (initial_client True)\<lparr>sockets := [OPEN], wsRef := Some 0,
     isConnected := True\<rparr>"

section \<open>Properties of the cumulative P\&L series\<close>

lemma foldl_reduce_step_length: "length (foldl reduce_step acc ts) = length acc + length ts"
  by (induction ts arbitrary: acc) (simp_all add: reduce_step_def Let_def)

lemma chartData_length: "length (chartData ts) = length (filter not_undefined ts)"
  by (simp add: chartData_def foldl_reduce_step_length)

lemma final_total_reduce_step:
  "final_total (reduce_step acc t) = final_total acc + pnl_or_zero (realized_pnl t)"
  by (simp add: reduce_step_def final_total_def Let_def)

lemma final_total_foldl:
  "final_total (foldl reduce_step acc ts)
     = foldl (+) (final_total acc) (map (\<lambda>t. pnl_or_zero (realized_pnl t)) ts)"
  by (induction ts arbitrary: acc) (simp_all add: final_total_reduce_step)

lemma chartData_total:
  "final_total (chartData ts)
     = foldl (+) 0 (map (\<lambda>t. pnl_or_zero (realized_pnl t))
         (sort_key timestamp (filter not_undefined ts)))"
proof -
  have "final_total ([] :: 'a ChartDataPoint list) = 0"
    by (simp add: final_total_def)
  then show ?thesis
    unfolding chartData_def final_total_foldl by simp
qed

lemma timestamps_foldl:
  "map point_timestamp (foldl reduce_step acc ts) = map point_timestamp acc @ map timestamp ts"
  by (induction ts arbitrary: acc) (simp_all add: reduce_step_def Let_def)

lemma map_sort_key: "map f (sort_key f xs) = sort (map f xs)"
proof -
  have "mset (map f (sort_key f xs)) = mset (map f xs)"
    by simp
  moreover have "sorted (map f (sort_key f xs))"
    by (rule sorted_sort_key)
  ultimately show ?thesis
    by (rule properties_for_sort [symmetric])
qed

lemma chartData_timestamps:
  "map point_timestamp (chartData ts) = sort (map timestamp (filter not_undefined ts))"
  by (simp add: chartData_def timestamps_foldl map_sort_key)

lemma filter_key_distinct:
  "distinct (map f zs) \<Longrightarrow> k \<in> set zs \<Longrightarrow> filter (\<lambda>x. f k = f x) zs = [k]"
proof (induction zs)
  case Nil
  then show ?case by simp
next
  case (Cons z zs)
  show ?case
  proof (cases "k = z")
    case True
    have "filter (\<lambda>x. f z = f x) zs = []"
      using Cons.prems(1) by (auto simp: filter_empty_conv)
    with True show ?thesis by simp
  next
    case False
    then have "k \<in> set zs" using Cons.prems(2) by simp
    moreover have "f k \<noteq> f z"
      using Cons.prems(1) \<open>k \<in> set zs\<close> by (auto simp: image_iff)
    ultimately show ?thesis using Cons by simp
  qed
qed

lemma sort_key_perm_distinct:
  assumes "mset xs' = mset xs" and "distinct (map f xs)"
  shows "sort_key f xs' = sort_key f xs"
proof (rule properties_for_sort_key)
  show "mset (sort_key f xs) = mset xs'"
    using assms(1) by simp
  show "sorted (map f (sort_key f xs))"
    by (rule sorted_sort_key)
next
  fix k
  assume k: "k \<in> set (sort_key f xs)"
  have d': "distinct (map f xs')"
  proof -
    have "mset (map f xs') = mset (map f xs)"
      using assms(1) by (metis mset_map)
    then show ?thesis
      using assms(2) by (metis mset_eq_imp_distinct_iff)
  qed
  have ds: "distinct (map f (sort_key f xs))"
  proof -
    have "mset (map f (sort_key f xs)) = mset (map f xs)"
      by simp
    then show ?thesis
      using assms(2) by (metis mset_eq_imp_distinct_iff)
  qed
  have kx: "k \<in> set xs'"
    using k assms(1) by (metis mset_eq_setD set_sort)
  show "filter (\<lambda>x. f k = f x) (sort_key f xs) = filter (\<lambda>x. f k = f x) xs'"
    using filter_key_distinct [OF ds k] filter_key_distinct [OF d' kx] by simp
qed

lemma chartData_perm_distinct:
  assumes "mset ts' = mset ts" and "distinct (map timestamp ts)"
  shows "chartData ts' = chartData ts"
proof -
  have m: "mset (filter not_undefined ts') = mset (filter not_undefined ts)"
    using assms(1) by (metis mset_filter)
  have d: "distinct (map timestamp (filter not_undefined ts))"
    using assms(2) by (rule distinct_map_filter)
  show ?thesis
    unfolding chartData_def using sort_key_perm_distinct [OF m d] by simp
qed

lemma filter_not_undefined_no_null:
  "\<forall>t \<in> set ts. realized_pnl t \<noteq> Null \<Longrightarrow> filter not_undefined ts = filter has_realized_pnl ts"
  by (rule filter_cong) (simp_all add: not_undefined_def has_realized_pnl_def)

text \<open>
  C2. The scenario's trade list, with the first trade's realized P\&L \<^verbatim>\<open>null\<close>, is
  claimed to give the two points (2, 10) and (3, 6). The filter of the chart tests
  \<^verbatim>\<open>!== undefined\<close> only, which \<^verbatim>\<open>null\<close> passes: the chart gets three points, the
  first one (1, 0) for the trade without a realized P\&L.
\<close>

theorem chartData_null_scenario:
  "chartData (scenario_trades Null)
     = [\<lparr>point_timestamp = 1, cumulative_pnl = 0\<rparr>,
        \<lparr>point_timestamp = 2, cumulative_pnl = 10\<rparr>,
        \<lparr>point_timestamp = 3, cumulative_pnl = 6\<rparr>]"
  by (simp add: chartData_def scenario_trades_def not_undefined_def reduce_step_def pnl_or_zero_def)

text \<open>
  With the key absent instead (\<^verbatim>\<open>undefined\<close>), the same list gives the two points
  of the scenario.
\<close>

theorem chartData_undefined_scenario:
  "chartData (scenario_trades Undefined)
     = [\<lparr>point_timestamp = 2, cumulative_pnl = 10\<rparr>,
        \<lparr>point_timestamp = 3, cumulative_pnl = 6\<rparr>]"
  by (simp add: chartData_def scenario_trades_def not_undefined_def reduce_step_def pnl_or_zero_def)

text \<open>
  C4. The length of the series is claimed to be the number of trades with a
  realized P\&L. For the single trade whose realized P\&L is \<^verbatim>\<open>null\<close> the series
  has one point, while no trade of the list carries a realized P\&L by the test of
  the trades table.
\<close>

theorem chartData_null_length:
  "length (chartData [null_trade]) = 1 \<and> length (filter has_realized_pnl [null_trade]) = 0"
  by (simp add: chartData_def null_trade_def not_undefined_def has_realized_pnl_def reduce_step_def)

text \<open>
  Sort-then-fold on every trade list, whatever the addition of the amounts is:
  the series has one point per trade whose realized P\&L is not \<^verbatim>\<open>undefined\<close>, its
  timestamps ascend, and it ends on the amounts added from left to right in
  timestamp order (a trade without an amount adds 0). The number of points does
  not depend on the order of the input; where the timestamps are pairwise distinct
  the whole series does not. Where no trade carries \<^verbatim>\<open>null\<close>, the points are as
  many as the trades with a realized P\&L.
\<close>

theorem chartData_sort_then_fold:
  "length (chartData ts) = length (filter not_undefined ts)
   \<and> map point_timestamp (chartData ts) = sort (map timestamp (filter not_undefined ts))
   \<and> final_total (chartData ts)
       = foldl (+) 0 (map (\<lambda>t. pnl_or_zero (realized_pnl t))
           (sort_key timestamp (filter not_undefined ts)))
   \<and> (mset ts' = mset ts \<longrightarrow> length (chartData ts') = length (chartData ts))
   \<and> (mset ts' = mset ts \<and> distinct (map timestamp ts) \<longrightarrow> chartData ts' = chartData ts)
   \<and> ((\<forall>t \<in> set ts. realized_pnl t \<noteq> Null) \<longrightarrow>
        length (chartData ts) = length (filter has_realized_pnl ts))"
proof -
  have perm: "length (chartData ts') = length (chartData ts)" if eq: "mset ts' = mset ts"
  proof -
    have "mset (filter not_undefined ts') = mset (filter not_undefined ts)"
      using eq by (metis mset_filter)
    then have "length (filter not_undefined ts') = length (filter not_undefined ts)"
      by (metis size_mset)
    then show ?thesis by (simp add: chartData_length)
  qed
  have nonull: "length (chartData ts) = length (filter has_realized_pnl ts)"
    if "\<forall>t \<in> set ts. realized_pnl t \<noteq> Null"
    using that by (simp add: chartData_length filter_not_undefined_no_null)
  from perm nonull chartData_perm_distinct [of ts' ts] chartData_length [of ts]
    chartData_timestamps [of ts] chartData_total [of ts]
  show ?thesis
    by blast
qed

text \<open>
  The theorem at the scenario's trade list, key absent, and at its reverse.
\<close>

theorem chartData_sort_then_fold_witness:
  "chartData (rev (scenario_trades Undefined)) = chartData (scenario_trades Undefined)
   \<and> length (chartData (rev (scenario_trades Undefined))) = 2
   \<and> length (filter has_realized_pnl (scenario_trades Undefined)) = 2"
proof -
  have m: "mset (rev (scenario_trades Undefined)) = mset (scenario_trades Undefined)"
    by simp
  have d: "distinct (map timestamp (scenario_trades Undefined))"
    by (simp add: scenario_trades_def)
  have n: "\<forall>t \<in> set (scenario_trades Undefined). realized_pnl t \<noteq> Null"
    by (simp add: scenario_trades_def)
  have l: "length (filter not_undefined (scenario_trades Undefined)) = 2"
    by (simp add: scenario_trades_def not_undefined_def)
  show ?thesis
    using chartData_sort_then_fold [of "scenario_trades Undefined" "rev (scenario_trades Undefined)"]
      m d n l
    by simp
qed

text \<open>An empty trade list gives an empty series.\<close>

theorem chartData_empty: "chartData [] = []"
  by (simp add: chartData_def)

section \<open>Properties of the active tickers\<close>

lemma set_foldl_set_add: "set (foldl set_add acc xs) = set acc \<union> set xs"
  by (induction xs arbitrary: acc) (auto simp: set_add_def)

lemma distinct_foldl_set_add: "distinct acc \<Longrightarrow> distinct (foldl set_add acc xs)"
  by (induction xs arbitrary: acc) (auto simp: set_add_def)

lemma set_new_Set: "set (new_Set xs) = set xs"
  by (simp add: new_Set_def set_foldl_set_add)

lemma distinct_new_Set: "distinct (new_Set xs)"
  by (simp add: new_Set_def distinct_foldl_set_add)

lemma foldl_set_add_first:
  "foldl set_add acc xs = acc @ first_occurrences (filter (\<lambda>x. x \<notin> set acc) xs)"
proof (induction xs arbitrary: acc)
  case Nil
  then show ?case by simp
next
  case (Cons x xs)
  show ?case
  proof (cases "x \<in> set acc")
    case True
    then show ?thesis using Cons.IH [of acc] by (simp add: set_add_def)
  next
    case False
    have "removeAll x (filter (\<lambda>y. y \<notin> set acc) xs) = filter (\<lambda>y. y \<notin> set (acc @ [x])) xs"
      by (induction xs) auto
    then show ?thesis using False Cons.IH [of "acc @ [x]"] by (simp add: set_add_def)
  qed
qed

lemma new_Set_first_occurrences: "new_Set xs = first_occurrences xs"
  by (simp add: new_Set_def foldl_set_add_first)

lemma first_occurrences_filter: "first_occurrences (filter P xs) = filter P (first_occurrences xs)"
proof (induction xs rule: first_occurrences.induct)
  case 1
  then show ?case by simp
next
  case (2 x xs)
  have a: "removeAll x (filter P xs) = filter P (removeAll x xs)"
    by (induction xs) auto
  have b: "\<not> P x \<Longrightarrow> filter P (removeAll x xs) = filter P xs"
    by (induction xs) auto
  show ?case
  proof (cases "P x")
    case True
    then show ?thesis using 2 a by simp
  next
    case False
    then show ?thesis using 2 b by simp
  qed
qed

lemma new_Set_append: "new_Set (xs @ ys) = new_Set xs @ filter (\<lambda>y. y \<notin> set xs) (new_Set ys)"
proof -
  have "new_Set (xs @ ys) = foldl set_add (new_Set xs) ys"
    by (simp add: new_Set_def)
  also have "\<dots> = new_Set xs @ first_occurrences (filter (\<lambda>y. y \<notin> set xs) ys)"
    by (simp add: foldl_set_add_first set_new_Set)
  finally show ?thesis
    by (simp add: first_occurrences_filter new_Set_first_occurrences)
qed

lemma subseq_first_occurrences: "subseq (first_occurrences xs) xs"
proof (induction xs rule: first_occurrences.induct)
  case 1
  then show ?case by simp
next
  case (2 x xs)
  have "subseq (removeAll x xs) xs"
    by (simp add: removeAll_filter_not_eq)
  with 2 have "subseq (first_occurrences (removeAll x xs)) xs"
    using subseq_order.order_trans by blast
  then show ?case by simp
qed

lemma new_Set_distinct_id: "distinct xs \<Longrightarrow> new_Set xs = xs"
  unfolding new_Set_first_occurrences
  by (induction xs) (simp_all add: removeAll_id)

text \<open>
  C7. For all positions and trades, \<open>uniqueTickers\<close> is the specified derivation at
  the defaults AAPL, TSLA, GME and cap 10: the tickers of the positions, of the
  first 10 trades and the defaults, each kept once at its first occurrence (so the
  set is the union, without duplicates, in insertion order), truncated to 10. The
  result has no duplicates and at most 10 entries.
\<close>

theorem uniqueTickers_dedup_union:
  "uniqueTickers ps ts = activeTickers (map position_ticker ps) (map ticker ts) default_tickers 10
   \<and> uniqueTickers ps ts
       = take 10 (new_Set (map position_ticker ps @ map ticker (take 10 ts) @ default_tickers))
   \<and> set (new_Set (map position_ticker ps @ map ticker (take 10 ts) @ default_tickers))
       = set (map position_ticker ps) \<union> set (map ticker (take 10 ts)) \<union> set default_tickers
   \<and> distinct (new_Set (map position_ticker ps @ map ticker (take 10 ts) @ default_tickers))
   \<and> subseq (new_Set (map position_ticker ps @ map ticker (take 10 ts) @ default_tickers))
        (map position_ticker ps @ map ticker (take 10 ts) @ default_tickers)
   \<and> distinct (uniqueTickers ps ts)
   \<and> length (uniqueTickers ps ts) \<le> 10
   \<and> default_tickers = [''AAPL'', ''TSLA'', ''GME'']"
proof -
  let ?all = "map position_ticker ps @ map ticker (take 10 ts) @ default_tickers"
  have 1: "uniqueTickers ps ts = activeTickers (map position_ticker ps) (map ticker ts) default_tickers 10"
    by (simp add: uniqueTickers_def activeTickers_def new_Set_first_occurrences take_map)
  have 2: "uniqueTickers ps ts = take 10 (new_Set ?all)"
    by (simp add: uniqueTickers_def)
  have 3: "set (new_Set ?all)
      = set (map position_ticker ps) \<union> set (map ticker (take 10 ts)) \<union> set default_tickers"
    by (simp only: set_new_Set set_append Un_assoc)
  have 4: "distinct (new_Set ?all)"
    by (rule distinct_new_Set)
  have 5: "subseq (new_Set ?all) ?all"
    unfolding new_Set_first_occurrences by (rule subseq_first_occurrences)
  have 6: "distinct (uniqueTickers ps ts)"
    unfolding 2 using 4 by (rule distinct_take)
  have 7: "length (uniqueTickers ps ts) \<le> 10"
    unfolding 2 by simp
  have 8: "default_tickers = [''AAPL'', ''TSLA'', ''GME'']"
    by (simp add: default_tickers_def)
  from 1 2 3 4 5 6 7 8 show ?thesis by blast
qed

lemma new_Set_default_tickers: "new_Set default_tickers = default_tickers"
  by (rule new_Set_distinct_id) (simp add: default_tickers_def)

lemma uniqueTickers_sections:
  "uniqueTickers ps ts =
     take 10 (new_Set (map position_ticker ps)
       @ filter (\<lambda>x. x \<notin> set (map position_ticker ps)) (new_Set (map ticker (take 10 ts)))
       @ filter (\<lambda>x. x \<notin> set (map position_ticker ps) \<and> x \<notin> set (map ticker (take 10 ts)))
           default_tickers)"
proof -
  let ?P = "map position_ticker ps" and ?T = "map ticker (take 10 ts)"
  have "new_Set (?P @ ?T @ default_tickers)
      = new_Set ?P @ filter (\<lambda>x. x \<notin> set ?P) (new_Set (?T @ default_tickers))"
    by (rule new_Set_append)
  also have "new_Set (?T @ default_tickers)
      = new_Set ?T @ filter (\<lambda>x. x \<notin> set ?T) default_tickers"
    by (simp only: new_Set_append new_Set_default_tickers)
  finally show ?thesis
    by (simp add: uniqueTickers_def conj_commute)
qed

lemma uniqueTickers_ten_positions:
  "uniqueTickers ten_positions [] = [''T0'', ''T1'', ''T2'', ''T3'', ''T4'', ''T5'', ''T6'', ''T7'', ''T8'', ''T9'']"
  by (simp add: uniqueTickers_def ten_positions_def new_Set_def set_add_def default_tickers_def)

text \<open>
  C10. The output is a prefix of three runs: the distinct position tickers in
  position order, then the tickers of the first 10 trades not seen among the
  positions, then the defaults not seen before. Truncation therefore cuts from the
  defaults first and from the trades next: with at least 10 distinct position
  tickers the output holds position tickers only, with at least 10 distinct
  tickers among positions and trades it holds no ticker that only the defaults
  supply, and with at most 10 distinct position tickers every one of them is kept.
  Ten positions in other tickers leave no default ticker in the output.
\<close>

theorem uniqueTickers_positions_first:
  "uniqueTickers ps ts =
     take 10 (new_Set (map position_ticker ps)
       @ filter (\<lambda>x. x \<notin> set (map position_ticker ps)) (new_Set (map ticker (take 10 ts)))
       @ filter (\<lambda>x. x \<notin> set (map position_ticker ps) \<and> x \<notin> set (map ticker (take 10 ts)))
           default_tickers)
   \<and> (10 \<le> length (new_Set (map position_ticker ps))
        \<longrightarrow> uniqueTickers ps ts = take 10 (new_Set (map position_ticker ps)))
   \<and> (10 \<le> length (new_Set (map position_ticker ps)
               @ filter (\<lambda>x. x \<notin> set (map position_ticker ps)) (new_Set (map ticker (take 10 ts))))
        \<longrightarrow> uniqueTickers ps ts
          = take 10 (new_Set (map position_ticker ps)
               @ filter (\<lambda>x. x \<notin> set (map position_ticker ps)) (new_Set (map ticker (take 10 ts)))))
   \<and> (length (new_Set (map position_ticker ps)) \<le> 10
        \<longrightarrow> prefix (new_Set (map position_ticker ps)) (uniqueTickers ps ts))
   \<and> (length (new_Set (map position_ticker ps)) = card (set (map position_ticker ps)))
   \<and> set (uniqueTickers ten_positions []) \<inter> set default_tickers = {}"
proof -
  let ?P = "map position_ticker ps" and ?T = "map ticker (take 10 ts)"
  let ?rest = "filter (\<lambda>x. x \<notin> set ?P) (new_Set ?T)
       @ filter (\<lambda>x. x \<notin> set ?P \<and> x \<notin> set ?T) default_tickers"
  have 1: "uniqueTickers ps ts = take 10 (new_Set ?P @ ?rest)"
    by (rule uniqueTickers_sections)
  have 2: "10 \<le> length (new_Set ?P) \<longrightarrow> uniqueTickers ps ts = take 10 (new_Set ?P)"
    unfolding 1 by simp
  have 6: "10 \<le> length (new_Set ?P @ filter (\<lambda>x. x \<notin> set ?P) (new_Set ?T))
      \<longrightarrow> uniqueTickers ps ts
        = take 10 (new_Set ?P @ filter (\<lambda>x. x \<notin> set ?P) (new_Set ?T))"
    unfolding 1 by simp
  have 3: "length (new_Set ?P) \<le> 10 \<longrightarrow> prefix (new_Set ?P) (uniqueTickers ps ts)"
    unfolding 1 by (simp add: prefix_def)
  have 4: "length (new_Set ?P) = card (set ?P)"
    using distinct_card [OF distinct_new_Set, of ?P] by (simp add: set_new_Set)
  have 5: "set (uniqueTickers ten_positions []) \<inter> set default_tickers = {}"
    unfolding uniqueTickers_ten_positions by (simp add: default_tickers_def)
  from 1 2 6 3 4 5 show ?thesis by blast
qed

text \<open>
  The theorem at ten positions with one trade in an eleventh ticker, and at a
  single position.
\<close>

theorem uniqueTickers_positions_first_witness:
  "uniqueTickers ten_positions [\<lparr>ticker = ''ZZ'', timestamp = 1, realized_pnl = Null\<rparr> :: real trade]
     = [''T0'', ''T1'', ''T2'', ''T3'', ''T4'', ''T5'', ''T6'', ''T7'', ''T8'', ''T9'']
   \<and> prefix [''GME''] (uniqueTickers [\<lparr>position_ticker = ''GME''\<rparr>] ([] :: real trade list))"
proof -
  have n: "new_Set (map position_ticker ten_positions)
      = [''T0'', ''T1'', ''T2'', ''T3'', ''T4'', ''T5'', ''T6'', ''T7'', ''T8'', ''T9'']"
    by (simp add: ten_positions_def new_Set_def set_add_def)
  have g: "new_Set [''GME''] = [''GME'']"
    by (simp add: new_Set_def set_add_def)
  show ?thesis
    using uniqueTickers_positions_first [of ten_positions
        "[\<lparr>ticker = ''ZZ'', timestamp = 1, realized_pnl = Null\<rparr> :: real trade]",
        THEN conjunct2, THEN conjunct1]
      uniqueTickers_positions_first [of "[\<lparr>position_ticker = ''GME''\<rparr>]" "[] :: real trade list",
        THEN conjunct2, THEN conjunct2, THEN conjunct2, THEN conjunct1]
    by (simp add: n g)
qed

section \<open>Properties of the reconciliation\<close>

lemma handle_signal:
  assumes "get_property message ''type'' = Inr (JStr ''signal'')"
    and "get_property message ''data'' = Inr s"
  shows "handleWebSocketMessage st message
           = Inr (st\<lparr>liveSignals := take 50 (s # liveSignals st)\<rparr>,
                  [RefetchPositions, RefetchTrades])"
  using assms by (simp add: handleWebSocketMessage_def)

lemma handle_performance:
  assumes "get_property message ''type'' = Inr (JStr ''performance'')"
    and "get_property message ''data'' = Inr d"
  shows "handleWebSocketMessage st message = Inr (st\<lparr>livePerformance := d\<rparr>, [])"
  using assms by (simp add: handleWebSocketMessage_def)

lemma handle_position_update:
  assumes "get_property message ''type'' = Inr (JStr ''position_update'')"
  shows "handleWebSocketMessage st message = Inr (st, [RefetchPositions])"
  using assms by (simp add: handleWebSocketMessage_def)

lemma envelope_type: "get_property (envelope tag d) ''type'' = Inr (JStr tag)"
  by (simp add: envelope_def)

lemma envelope_data: "get_property (envelope tag d) ''data'' = Inr d"
  by (simp add: envelope_def)







text \<open>
  C8. A \<^verbatim>\<open>position_update\<close> envelope makes the handler call the refetch of
  positions once and the refetch of trades never, and leaves the whole state as it
  was: the signal buffer, the displayed performance and the trades snapshot.
\<close>

theorem position_update_refetches_positions_only:
  assumes "get_property message ''type'' = Inr (JStr ''position_update'')"
  shows "handleWebSocketMessage st message = Inr (st, [RefetchPositions])
    \<and> count_list (push_calls st message) RefetchPositions = 1
    \<and> count_list (push_calls st message) RefetchTrades = 0
    \<and> after_push st message = st
    \<and> liveSignals (after_push st message) = liveSignals st
    \<and> displayPerformance (after_push st message) = displayPerformance st
    \<and> trades (after_push st message) = trades st
    \<and> onmessage cst (Inr message) = (cst, [OnMessage message, RefetchPositions])"
proof -
  have h: "handleWebSocketMessage st message = Inr (st, [RefetchPositions])" for st
    using assms by (simp add: handleWebSocketMessage_def)
  have a: "after_push st message = st"
    by (simp add: after_push_def h)
  have o: "onmessage cst (Inr message) = (cst, [OnMessage message, RefetchPositions])"
    by (simp add: onmessage_def h)
  have c: "push_calls st message = [RefetchPositions]"
    by (simp add: push_calls_def h)
  from h [of st] a o c show ?thesis by simp
qed

text \<open>
  The theorem at a state that holds a signal and a pushed performance.
\<close>

theorem position_update_refetches_positions_only_witness:
  "handleWebSocketMessage (initial_app\<lparr>liveSignals := [JStr ''S1''], livePerformance := pushed_performance\<rparr>)
       (envelope ''position_update'' (JObj [(''ticker'', JStr ''GME'')]))
     = Inr (initial_app\<lparr>liveSignals := [JStr ''S1''], livePerformance := pushed_performance\<rparr>,
            [RefetchPositions])"
proof -
  have t: "get_property (envelope ''position_update'' (JObj [(''ticker'', JStr ''GME'')])) ''type''
      = Inr (JStr ''position_update'')"
    by (simp add: envelope_def)
  show ?thesis
    using position_update_refetches_positions_only [OF t] by simp
qed







text \<open>
  C3, as stated, fails twice. A \<^verbatim>\<open>signal\<close> envelope whose payload is the number
  42, no signal at all, is not dropped: it enters the buffer and both refetches are
  called. An envelope with an unknown tag is dropped, but nothing is logged.
\<close>

theorem malformed_envelope_counterexample:
  "onmessage (initial_client True) (Inr (envelope ''signal'' (JNum 42)))
     = ((initial_client True)\<lparr>app := initial_app\<lparr>liveSignals := [JNum 42]\<rparr>\<rparr>,
        [OnMessage (envelope ''signal'' (JNum 42)), RefetchPositions, RefetchTrades])
   \<and> onmessage (initial_client True) (Inr (envelope ''order'' JNull))
     = (initial_client True, [OnMessage (envelope ''order'' JNull)])"
  by (simp add: onmessage_def handleWebSocketMessage_def envelope_def
      initial_client_def initial_app_def)

lemma handleWebSocketMessage_calls:
  "handleWebSocketMessage st message = Inr r \<Longrightarrow> filter channel_call (snd r) = []"
  by (auto simp: handleWebSocketMessage_def split: sum.splits if_splits)

text \<open>
  C3, amended, for what \<^verbatim>\<open>ws.onmessage\<close> does with a frame until it returns. A
  frame that fails to decode is dropped with a logged console error and changes
  nothing; so is a frame that decodes to \<^verbatim>\<open>null\<close>, on which the handler throws
  inside the \<^verbatim>\<open>try\<close> block. An envelope with an unknown or missing tag is dropped
  silently: no state change, no refetch, no log entry. Payloads are not validated:
  whatever the payload is, a \<^verbatim>\<open>signal\<close> envelope puts it into the buffer and calls
  both refetches, a \<^verbatim>\<open>performance\<close> envelope makes it the live performance, and
  a \<^verbatim>\<open>position_update\<close> envelope, whose payload is not read, calls the refetch
  of positions. For every frame, decodable or not, handling it changes nothing of
  the client but the state of the subscriber and makes no call on a socket or a
  timer, so the connection state stays as it was and no reconnect is scheduled;
  the handler of the socket returns normally on every frame.
\<close>

theorem undecodable_frame_dropped:
  "onmessage st (Inl e) = (st, [ConsoleError])
   \<and> (get_property message ''type'' = Inl e \<longrightarrow>
        onmessage st (Inr message) = (st, [OnMessage message, ConsoleError]))
   \<and> (get_property message ''type'' = Inr ty
        \<and> ty \<noteq> JStr ''signal'' \<and> ty \<noteq> JStr ''performance'' \<and> ty \<noteq> JStr ''position_update'' \<longrightarrow>
        onmessage st (Inr message) = (st, [OnMessage message]))
   \<and> (get_property message ''type'' = Inr (JStr ''signal'')
        \<and> get_property message ''data'' = Inr d \<longrightarrow>
        onmessage st (Inr message)
          = (st\<lparr>app := (app st)\<lparr>liveSignals := take 50 (d # liveSignals (app st))\<rparr>\<rparr>,
             [OnMessage message, RefetchPositions, RefetchTrades]))
   \<and> (get_property message ''type'' = Inr (JStr ''performance'')
        \<and> get_property message ''data'' = Inr d \<longrightarrow>
        onmessage st (Inr message)
          = (st\<lparr>app := (app st)\<lparr>livePerformance := d\<rparr>\<rparr>, [OnMessage message]))
   \<and> (get_property message ''type'' = Inr (JStr ''position_update'') \<longrightarrow>
        onmessage st (Inr message) = (st, [OnMessage message, RefetchPositions]))
   \<and> fst (onmessage st parsed) = st\<lparr>app := app (fst (onmessage st parsed))\<rparr>
   \<and> filter channel_call (snd (onmessage st parsed)) = []
   \<and> (step st (SocketMessage i parsed) = None
        \<or> step st (SocketMessage i parsed) = Some (onmessage st parsed))"
proof -
  have 1: "onmessage st (Inl e) = (st, [ConsoleError])"
    by (simp add: onmessage_def)
  have 2: "get_property message ''type'' = Inl e \<longrightarrow>
        onmessage st (Inr message) = (st, [OnMessage message, ConsoleError])"
    by (simp add: onmessage_def handleWebSocketMessage_def)
  have 3: "get_property message ''type'' = Inr ty
        \<and> ty \<noteq> JStr ''signal'' \<and> ty \<noteq> JStr ''performance'' \<and> ty \<noteq> JStr ''position_update'' \<longrightarrow>
        onmessage st (Inr message) = (st, [OnMessage message])"
    by (simp add: onmessage_def handleWebSocketMessage_def)
  have 4: "get_property message ''type'' = Inr (JStr ''signal'')
        \<and> get_property message ''data'' = Inr d \<longrightarrow>
        onmessage st (Inr message)
          = (st\<lparr>app := (app st)\<lparr>liveSignals := take 50 (d # liveSignals (app st))\<rparr>\<rparr>,
             [OnMessage message, RefetchPositions, RefetchTrades])"
    by (simp add: onmessage_def handle_signal)
  have 5: "get_property message ''type'' = Inr (JStr ''performance'')
        \<and> get_property message ''data'' = Inr d \<longrightarrow>
        onmessage st (Inr message)
          = (st\<lparr>app := (app st)\<lparr>livePerformance := d\<rparr>\<rparr>, [OnMessage message])"
    by (simp add: onmessage_def handle_performance)
  have 6: "get_property message ''type'' = Inr (JStr ''position_update'') \<longrightarrow>
        onmessage st (Inr message) = (st, [OnMessage message, RefetchPositions])"
    by (simp add: onmessage_def handle_position_update)
  have 7: "fst (onmessage st parsed) = st\<lparr>app := app (fst (onmessage st parsed))\<rparr>"
    by (simp add: onmessage_def split: sum.splits)
  have 8: "filter channel_call (snd (onmessage st parsed)) = []"
    by (auto simp: onmessage_def dest: handleWebSocketMessage_calls split: sum.splits)
  have 9: "step st (SocketMessage i parsed) = None
        \<or> step st (SocketMessage i parsed) = Some (onmessage st parsed)"
    by simp
  from 1 2 3 4 5 6 7 8 9 show ?thesis by blast
qed

text \<open>
  The theorem at a frame that is no JSON, at a frame that decodes to \<^verbatim>\<open>null\<close>,
  at an object without a tag, and at the three known tags with the string
  ``oops'' for a payload.
\<close>

theorem undecodable_frame_dropped_witness:
  "onmessage mounted_client (Inl SyntaxError) = (mounted_client, [ConsoleError])
   \<and> onmessage mounted_client (Inr JNull) = (mounted_client, [OnMessage JNull, ConsoleError])
   \<and> onmessage mounted_client (Inr (JObj [])) = (mounted_client, [OnMessage (JObj [])])
   \<and> liveSignals (app (fst (onmessage mounted_client (Inr (envelope ''signal'' (JStr ''oops''))))))
       = take 50 (JStr ''oops'' # liveSignals (app mounted_client))
   \<and> livePerformance (app (fst (onmessage mounted_client (Inr (envelope ''performance'' (JStr ''oops''))))))
       = JStr ''oops''
   \<and> onmessage mounted_client (Inr (envelope ''position_update'' (JStr ''oops'')))
       = (mounted_client,
          [OnMessage (envelope ''position_update'' (JStr ''oops'')), RefetchPositions])"
proof -
  have n: "get_property JNull ''type'' = Inl TypeError"
    by simp
  have u: "get_property (JObj []) ''type'' = Inr JUndefined
      \<and> JUndefined \<noteq> JStr ''signal'' \<and> JUndefined \<noteq> JStr ''performance''
      \<and> JUndefined \<noteq> JStr ''position_update''"
    by simp
  show ?thesis
    using undecodable_frame_dropped [of mounted_client SyntaxError JNull JUndefined JUndefined "Inl SyntaxError" 0]
      undecodable_frame_dropped [of mounted_client TypeError JNull JUndefined JUndefined "Inl SyntaxError" 0]
      undecodable_frame_dropped [of mounted_client TypeError "JObj []" JUndefined JUndefined "Inl SyntaxError" 0]
      undecodable_frame_dropped [of mounted_client TypeError "envelope ''signal'' (JStr ''oops'')"
        JUndefined "JStr ''oops''" "Inl SyntaxError" 0]
      undecodable_frame_dropped [of mounted_client TypeError "envelope ''performance'' (JStr ''oops'')"
        JUndefined "JStr ''oops''" "Inl SyntaxError" 0]
      undecodable_frame_dropped [of mounted_client TypeError "envelope ''position_update'' (JStr ''oops'')"
        JUndefined "JStr ''oops''" "Inl SyntaxError" 0]
      n u envelope_type envelope_data
    by simp
qed

section \<open>Properties of the push channel client\<close>

lemma close_cycles_0: "close_cycles s t 0 = []"
  by (simp add: close_cycles_def)

lemma close_cycles_Suc:
  "close_cycles s t (Suc n) = SocketClose s # TimerFire t # close_cycles (Suc s) (Suc t) n"
proof -
  have "[0..<Suc n] = 0 # map Suc [0..<n]"
    by (simp add: upt_conv_Cons map_Suc_upt del: upt_Suc)
  then show ?thesis
    by (simp add: close_cycles_def comp_def del: upt_Suc)
qed

lemma reconnect_delay_mono: "reconnect_delay k \<le> reconnect_delay (Suc k)"
  by (simp add: reconnect_delay_def min_def)

lemma reconnect_delay_cap: "reconnect_delay k \<le> 30000"
  by (simp add: reconnect_delay_def)

lemma one_cycle:
  assumes "sockets st = ss @ [s]" and "s \<noteq> CLOSED" and "timers st = []" and "url_valid st"
    and "reconnectAttempts st < 10"
  shows "\<exists>st2. run st [SocketClose (length ss), TimerFire (nextTimer st)]
           = Some (st2, [[ConsoleLog, ConsoleLog, SetTimeout (nextTimer st) (reconnect_delay (reconnectAttempts st))],
                         [NewWebSocket (Suc (length ss))]])
         \<and> sockets st2 = (ss @ [CLOSED]) @ [CONNECTING]
         \<and> timers st2 = [] \<and> url_valid st2
         \<and> reconnectAttempts st2 = Suc (reconnectAttempts st)
         \<and> nextTimer st2 = Suc (nextTimer st)
         \<and> error st2 = error st \<and> app st2 = app st"
  using assms
  by (simp add: onclose_def maxAttempts_def reconnect_timer_def connect_def Let_def)

lemma run_append:
  "run st (es @ fs) =
     (case run st es of
        None \<Rightarrow> None
      | Some (st1, e1) \<Rightarrow>
          (case run st1 fs of None \<Rightarrow> None | Some (st2, e2) \<Rightarrow> Some (st2, e1 @ e2)))"
proof (induction es arbitrary: st)
  case Nil
  then show ?case by (simp split: option.splits)
next
  case (Cons e es)
  show ?case
  proof (cases "step st e")
    case None
    then show ?thesis by simp
  next
    case (Some r)
    obtain st1 f where r: "r = (st1, f)" by (cases r)
    show ?thesis
      using Some r Cons.IH [of st1] by (simp split: option.splits)
  qed
qed

lemma run_Cons2:
  assumes "run st [e1, e2] = Some (st2, [f1, f2])" and "run st2 es = Some (st3, fs)"
  shows "run st (e1 # e2 # es) = Some (st3, f1 # f2 # fs)"
proof -
  have "run st ([e1, e2] @ es) = Some (st3, [f1, f2] @ fs)"
    unfolding run_append [of st "[e1, e2]" es] using assms by simp
  then show ?thesis by simp
qed

lemma scheduled_delays_Cons2:
  "scheduled_delays ([ConsoleLog, ConsoleLog, SetTimeout t d] # [NewWebSocket i] # fs)
     = d # scheduled_delays fs"
  by (simp add: scheduled_delays_def)

lemma cycles_run:
  assumes "sockets st = ss @ [s]" and "s \<noteq> CLOSED" and "timers st = []" and "url_valid st"
    and "reconnectAttempts st + n \<le> 10"
  shows "\<exists>st' effs. run st (close_cycles (length ss) (nextTimer st) n) = Some (st', effs)
         \<and> scheduled_delays effs
             = map reconnect_delay [reconnectAttempts st..<reconnectAttempts st + n]
         \<and> reconnectAttempts st' = reconnectAttempts st + n
         \<and> sockets st' = ss @ replicate n CLOSED @ [if n = 0 then s else CONNECTING]
         \<and> timers st' = [] \<and> url_valid st'
         \<and> nextTimer st' = nextTimer st + n
         \<and> error st' = error st \<and> app st' = app st"
  using assms
proof (induction n arbitrary: st ss s)
  case 0
  then show ?case by (simp add: close_cycles_0 scheduled_delays_def)
next
  case (Suc n)
  from Suc.prems have lt: "reconnectAttempts st < 10" by simp
  from one_cycle [OF Suc.prems(1-4) lt] obtain st2 where
    r2: "run st [SocketClose (length ss), TimerFire (nextTimer st)]
           = Some (st2, [[ConsoleLog, ConsoleLog, SetTimeout (nextTimer st) (reconnect_delay (reconnectAttempts st))],
                         [NewWebSocket (Suc (length ss))]])"
    and s2: "sockets st2 = (ss @ [CLOSED]) @ [CONNECTING]"
    and t2: "timers st2 = []" and u2: "url_valid st2"
    and a2: "reconnectAttempts st2 = Suc (reconnectAttempts st)"
    and n2: "nextTimer st2 = Suc (nextTimer st)"
    and e2: "error st2 = error st" and p2: "app st2 = app st"
    by blast
  have le: "reconnectAttempts st2 + n \<le> 10"
    using Suc.prems(5) a2 by simp
  from Suc.IH [OF s2 _ t2 u2 le] obtain st' effs where
    r: "run st2 (close_cycles (length (ss @ [CLOSED])) (nextTimer st2) n) = Some (st', effs)"
    and d: "scheduled_delays effs
             = map reconnect_delay [reconnectAttempts st2..<reconnectAttempts st2 + n]"
    and a: "reconnectAttempts st' = reconnectAttempts st2 + n"
    and s': "sockets st' = (ss @ [CLOSED]) @ replicate n CLOSED @ [if n = 0 then CONNECTING else CONNECTING]"
    and rest: "timers st' = []" "url_valid st'" "nextTimer st' = nextTimer st2 + n"
      "error st' = error st2" "app st' = app st2"
    by auto
  have run: "run st (close_cycles (length ss) (nextTimer st) (Suc n))
      = Some (st', [ConsoleLog, ConsoleLog, SetTimeout (nextTimer st) (reconnect_delay (reconnectAttempts st))]
                # [NewWebSocket (Suc (length ss))] # effs)"
    unfolding close_cycles_Suc using r n2 by (intro run_Cons2 [OF r2]) simp
  have delays: "scheduled_delays ([ConsoleLog, ConsoleLog, SetTimeout (nextTimer st) (reconnect_delay (reconnectAttempts st))]
                # [NewWebSocket (Suc (length ss))] # effs)
      = map reconnect_delay [reconnectAttempts st..<reconnectAttempts st + Suc n]"
    unfolding scheduled_delays_Cons2 d a2
    by (simp add: upt_conv_Cons del: upt_Suc)
  have socks: "sockets st' = ss @ replicate (Suc n) CLOSED @ [if Suc n = 0 then s else CONNECTING]"
    using s' by simp
  show ?case
    using run delays socks a a2 rest n2 e2 p2
    by (intro exI [of _ st']
        exI [of _ "[ConsoleLog, ConsoleLog, SetTimeout (nextTimer st) (reconnect_delay (reconnectAttempts st))]
                # [NewWebSocket (Suc (length ss))] # effs"]) simp
qed

lemma all_closed_no_event:
  assumes "set (sockets st) \<subseteq> {CLOSED}" and "timers st = []" and "step st ev \<noteq> None"
  shows "ev = Mount \<or> ev = Unmount"
proof -
  have c: "sockets st ! i = CLOSED" if "i < length (sockets st)" for i
    using assms(1) that nth_mem by fastforce
  show ?thesis
    using assms(2,3) c by (cases ev) (auto split: if_splits)
qed

lemma terminal_close:
  assumes "sockets st = ss @ [s]" and "s \<noteq> CLOSED" and "set ss \<subseteq> {CLOSED}"
    and "timers st = []" and "10 \<le> reconnectAttempts st"
  shows "\<exists>st'. step st (SocketClose (length ss)) = Some (st', [ConsoleLog])
         \<and> error st' = Some ''Failed to connect after multiple attempts''
         \<and> timers st' = [] \<and> set (sockets st') \<subseteq> {CLOSED}
         \<and> reconnectAttempts st' = reconnectAttempts st"
  using assms by (simp add: onclose_def maxAttempts_def Let_def)

lemma single_open:
  assumes "single_connection k st" and "step st (SocketOpen i) = Some (st1, e)"
  shows "single_connection 0 st1 \<and> concat (map scheduled_delay e) = [] \<and> reconnectAttempts st1 = 0"
proof -
  from assms(2) have i: "i < length (sockets st)" "sockets st ! i = CONNECTING"
    and st1: "st1 = fst (onopen (st\<lparr>sockets := (sockets st)[i := OPEN]\<rparr>))"
    and e: "e = snd (onopen (st\<lparr>sockets := (sockets st)[i := OPEN]\<rparr>))"
    by (auto split: if_splits)
  from assms(1) i have one: "\<forall>j < length (sockets st). j \<noteq> i \<longrightarrow> sockets st ! j = CLOSED"
    and t: "timers st = []"
    unfolding single_connection_def by (metis ready_state.distinct(5))+
  have "single_connection 0 st1"
    unfolding single_connection_def st1 onopen_def
    using i one t by (intro disjI1) (auto simp: nth_list_update intro!: exI [of _ i])
  then show ?thesis
    by (simp add: st1 e onopen_def)
qed

lemma onmessage_client:
  "sockets (fst (onmessage st parsed)) = sockets st
   \<and> timers (fst (onmessage st parsed)) = timers st
   \<and> reconnectAttempts (fst (onmessage st parsed)) = reconnectAttempts st
   \<and> concat (map scheduled_delay (snd (onmessage st parsed))) = []"
  by (auto simp: onmessage_def handleWebSocketMessage_def split: sum.splits if_splits)

lemma single_message:
  assumes "single_connection k st" and "step st (SocketMessage i parsed) = Some (st1, e)"
  shows "single_connection k st1 \<and> concat (map scheduled_delay e) = []"
proof -
  from assms(2) have "st1 = fst (onmessage st parsed)" "e = snd (onmessage st parsed)"
    by (auto split: if_splits)
  then show ?thesis
    using assms(1) onmessage_client [of st parsed] by (simp add: single_connection_def)
qed

lemma single_error:
  assumes "single_connection k st" and "step st (SocketError i) = Some (st1, e)"
  shows "single_connection k st1 \<and> concat (map scheduled_delay e) = []"
proof -
  from assms(2) have "st1 = fst (onerror st)" "e = snd (onerror st)"
    by (auto split: if_splits)
  then show ?thesis
    using assms(1) by (simp add: single_connection_def onerror_def)
qed

lemma single_close:
  assumes "single_connection k st" and "step st (SocketClose i) = Some (st1, e)"
  shows "single_connection (Suc k) st1
    \<and> concat (map scheduled_delay e) = (if k < 10 then [min (1000 * 2 ^ k) 30000] else [])"
proof -
  let ?st = "st\<lparr>sockets := (sockets st)[i := CLOSED]\<rparr>"
  from assms(2) have i: "i < length (sockets st)" "sockets st ! i \<noteq> CLOSED"
    and st1: "st1 = fst (onclose ?st)" and e: "e = snd (onclose ?st)"
    by (auto split: if_splits)
  from assms(1) i have one: "\<forall>j < length (sockets st). j \<noteq> i \<longrightarrow> sockets st ! j = CLOSED"
    and t: "timers st = []" and a: "reconnectAttempts st = k"
    unfolding single_connection_def by metis+
  have closed: "\<forall>j < length (sockets ?st). sockets ?st ! j = CLOSED"
    using one i by (simp add: nth_list_update)
  show ?thesis
  proof (cases "k < 10")
    case True
    have "single_connection (Suc k) st1"
      unfolding single_connection_def st1
      using closed t a True by (intro disjI2 disjI1) (simp add: onclose_def maxAttempts_def Let_def)
    then show ?thesis
      using True a by (simp add: e onclose_def maxAttempts_def reconnect_delay_def Let_def)
  next
    case False
    have "single_connection (Suc k) st1"
      unfolding single_connection_def st1
      using closed t a False by (intro disjI2) (simp add: onclose_def maxAttempts_def Let_def)
    then show ?thesis
      using False a by (simp add: e onclose_def maxAttempts_def Let_def)
  qed
qed

lemma single_timer:
  assumes "single_connection k st" and "step st (TimerFire t) = Some (st1, e)"
  shows "single_connection k st1 \<and> concat (map scheduled_delay e) = []"
proof -
  let ?st = "st\<lparr>timers := filter (\<lambda>p. fst p \<noteq> t) (timers st)\<rparr>"
  from assms(2) have t: "t \<in> fst ` set (timers st)"
    and st1: "st1 = fst (reconnect_timer ?st)" and e: "e = snd (reconnect_timer ?st)"
    by (auto split: if_splits)
  from t have ne: "timers st \<noteq> []" by auto
  with assms(1) obtain d where
    closed: "\<forall>j < length (sockets st). sockets st ! j = CLOSED"
    and tm: "timers st = [(t, d)]" and a: "Suc (reconnectAttempts st) = k"
    using t unfolding single_connection_def by auto
  show ?thesis
  proof (cases "url_valid st")
    case True
    have "single_connection k st1"
      unfolding single_connection_def st1
      using closed tm a True
      by (intro disjI1)
        (auto simp: reconnect_timer_def connect_def nth_append intro!: exI [of _ "length (sockets st)"])
    then show ?thesis
      using True by (simp add: e reconnect_timer_def connect_def)
  next
    case False
    have "single_connection k st1"
      unfolding single_connection_def st1
      using closed tm False by (intro disjI2) (simp add: reconnect_timer_def connect_def)
    then show ?thesis
      using False by (simp add: e reconnect_timer_def connect_def)
  qed
qed

lemma close_socket_live:
  "length (close_socket ss w) = length ss
   \<and> (\<forall>j < length ss. (close_socket ss w ! j = CLOSED) = (ss ! j = CLOSED))"
  by (auto simp: close_socket_def nth_list_update)

lemma single_unmount:
  assumes "single_connection k st" and "step st Unmount = Some (st1, e)"
  shows "single_connection k st1 \<and> concat (map scheduled_delay e) = []"
proof -
  from assms(2) have st1: "st1 = fst (cleanup st)" and e: "e = snd (cleanup st)"
    by simp_all
  have a: "reconnectAttempts st1 = reconnectAttempts st"
    by (simp add: st1 cleanup_def split: option.splits)
  have len: "length (sockets st1) = length (sockets st)"
    and live: "\<forall>j < length (sockets st). (sockets st1 ! j = CLOSED) = (sockets st ! j = CLOSED)"
    using close_socket_live [of "sockets st"]
    by (auto simp: st1 cleanup_def split: option.splits)
  have tm: "timers st1 = timers st \<or> (\<exists>t. timers st1 = filter (\<lambda>p. fst p \<noteq> t) (timers st))"
    by (auto simp: st1 cleanup_def split: option.splits)
  have tm1: "timers st = [] \<Longrightarrow> timers st1 = []"
    using tm by auto
  have tm2: "timers st = [(t, d)] \<Longrightarrow> timers st1 = [(t, d)] \<or> timers st1 = []" for t d
    using tm by auto
  have d: "concat (map scheduled_delay e) = []"
    by (simp add: e cleanup_def split: option.splits)
  have "single_connection k st1"
    using assms(1) unfolding single_connection_def
    using a len live tm1 tm2 by (elim disjE conjE exE) (simp_all, metis+)
  with d show ?thesis by simp
qed

lemma scheduled_delays_Cons:
  "scheduled_delays (e # rest) = concat (map scheduled_delay e) @ scheduled_delays rest"
  by (simp add: scheduled_delays_def)

lemma single_run:
  assumes "single_connection k st" and "Mount \<notin> set evs" and "run st evs = Some (st', effs)"
  shows "scheduled_delays effs = expected_delays k evs"
  using assms
proof (induction evs arbitrary: st k effs)
  case Nil
  then show ?case by (simp add: scheduled_delays_def)
next
  case (Cons ev evs)
  from Cons.prems(3) obtain st1 e rest where
    s: "step st ev = Some (st1, e)" and r: "run st1 evs = Some (st', rest)" and effs: "effs = e # rest"
    by (auto split: option.splits prod.splits)
  from Cons.prems(2) have nm: "ev \<noteq> Mount" "Mount \<notin> set evs"
    by auto
  note inv = Cons.prems(1)
  show ?case
  proof (cases ev)
    case Mount
    with nm show ?thesis by simp
  next
    case Unmount
    with single_unmount [OF inv] s have "single_connection k st1" "concat (map scheduled_delay e) = []"
      by auto
    with Cons.IH [OF _ nm(2) r] Unmount show ?thesis
      by (simp add: effs scheduled_delays_Cons)
  next
    case (SocketOpen i)
    with single_open [OF inv] s have "single_connection 0 st1" "concat (map scheduled_delay e) = []"
      by auto
    with Cons.IH [OF _ nm(2) r] SocketOpen show ?thesis
      by (simp add: effs scheduled_delays_Cons)
  next
    case (SocketMessage i parsed)
    with single_message [OF inv] s have "single_connection k st1" "concat (map scheduled_delay e) = []"
      by auto
    with Cons.IH [OF _ nm(2) r] SocketMessage show ?thesis
      by (simp add: effs scheduled_delays_Cons)
  next
    case (SocketError i)
    with single_error [OF inv] s have "single_connection k st1" "concat (map scheduled_delay e) = []"
      by auto
    with Cons.IH [OF _ nm(2) r] SocketError show ?thesis
      by (simp add: effs scheduled_delays_Cons)
  next
    case (SocketClose i)
    with single_close [OF inv] s have "single_connection (Suc k) st1"
      "concat (map scheduled_delay e) = (if k < 10 then [min (1000 * 2 ^ k) 30000] else [])"
      by auto
    with Cons.IH [OF _ nm(2) r] SocketClose show ?thesis
      by (simp add: effs scheduled_delays_Cons)
  next
    case (TimerFire t)
    with single_timer [OF inv] s have "single_connection k st1" "concat (map scheduled_delay e) = []"
      by auto
    with Cons.IH [OF _ nm(2) r] TimerFire show ?thesis
      by (simp add: effs scheduled_delays_Cons)
  qed
qed

lemma single_connection_start:
  assumes "sockets st = ss @ [s]" and "s \<noteq> CLOSED" and "set ss \<subseteq> {CLOSED}"
    and "timers st = []" and "reconnectAttempts st = 0"
  shows "single_connection 0 st"
proof -
  have "\<forall>j < length (sockets st). j \<noteq> length ss \<longrightarrow> sockets st ! j = CLOSED"
    using assms(1,3) by (auto simp: nth_append subset_iff dest: nth_mem)
  moreover have "length ss < length (sockets st)" "sockets st ! length ss \<noteq> CLOSED"
    using assms(1,2) by simp_all
  ultimately show ?thesis
    unfolding single_connection_def using assms(4,5) by blast
qed

text \<open>
  C6. On a client whose last socket is live, whose other sockets are closed, with
  no timer pending and the attempt counter at 0 (as the first mount leaves it, and
  as \<^verbatim>\<open>onopen\<close> leaves it), \<open>n\<close> consecutive closes (\<open>n\<close> at most 10) schedule the
  reconnect delays min(1000 * 2^k, 30000) ms for k = 0, ..., n - 1 and leave the
  counter at \<open>n\<close>. After ten reconnects the eleventh close schedules nothing, sets
  the error ``Failed to connect after multiple attempts'' and leaves a client on
  which no socket or timer event can fire any more. The delays never decrease,
  never exceed 30000 ms, and start 1000, 2000, 4000. Every open event resets the
  counter to 0, and in any state a close at a counter of 10 or more schedules no
  timer. More generally, whatever the platform fires on such a client (opens,
  frames, errors, closes, timers, a teardown) short of running the effect a second
  time, the delays scheduled are those of the specification: the k-th close after
  the last open, k counted from 0, waits min(1000 * 2^k, 30000) ms while k is
  below 10, and schedules nothing from 10 on.
\<close>

theorem reconnect_backoff:
  assumes "sockets st = ss @ [s]" and "s \<noteq> CLOSED" and "set ss \<subseteq> {CLOSED}"
    and "timers st = []" and "url_valid st" and "reconnectAttempts st = 0" and "n \<le> 10"
  shows "(\<exists>st' effs. run st (close_cycles (length ss) (nextTimer st) n) = Some (st', effs)
            \<and> scheduled_delays effs = map (\<lambda>k. min (1000 * 2 ^ k) 30000) [0..<n]
            \<and> reconnectAttempts st' = n)
    \<and> (\<exists>st' effs. run st (close_cycles (length ss) (nextTimer st) 10 @ [SocketClose (length ss + 10)])
              = Some (st', effs @ [[ConsoleLog]])
            \<and> scheduled_delays effs = map (\<lambda>k. min (1000 * 2 ^ k) 30000) [0..<10]
            \<and> error st' = Some ''Failed to connect after multiple attempts''
            \<and> timers st' = []
            \<and> (\<forall>ev. step st' ev \<noteq> None \<longrightarrow> ev = Mount \<or> ev = Unmount))
    \<and> reconnect_delay k = min (1000 * 2 ^ k) 30000
    \<and> reconnect_delay k \<le> reconnect_delay (Suc k)
    \<and> reconnect_delay k \<le> 30000
    \<and> map reconnect_delay [0, 1, 2] = [1000, 2000, 4000]
    \<and> reconnectAttempts (fst (onopen st0)) = 0
    \<and> (10 \<le> reconnectAttempts st0 \<longrightarrow>
          snd (onclose st0) = [ConsoleLog]
          \<and> timers (fst (onclose st0)) = timers st0
          \<and> error (fst (onclose st0)) = Some ''Failed to connect after multiple attempts'')
    \<and> (step st0 (SocketOpen i) = Some (st1, e1) \<longrightarrow> reconnectAttempts st1 = 0)
    \<and> (Mount \<notin> set evs \<and> run st evs = Some (st2, effs2) \<longrightarrow>
          scheduled_delays effs2 = expected_delays 0 evs)"
proof -
  have dl: "map reconnect_delay xs = map (\<lambda>k. min (1000 * 2 ^ k) 30000) xs" for xs
    by (simp add: reconnect_delay_def)
  have le: "reconnectAttempts st + n \<le> 10"
    using assms(6,7) by simp
  from cycles_run [OF assms(1,2,4,5) le] assms(6)
  have 1: "\<exists>st' effs. run st (close_cycles (length ss) (nextTimer st) n) = Some (st', effs)
            \<and> scheduled_delays effs = map (\<lambda>k. min (1000 * 2 ^ k) 30000) [0..<n]
            \<and> reconnectAttempts st' = n"
    unfolding dl by auto
  have le10: "reconnectAttempts st + 10 \<le> 10"
    using assms(6) by simp
  from cycles_run [OF assms(1,2,4,5) le10] assms(6) obtain sta effs where
    r1: "run st (close_cycles (length ss) (nextTimer st) 10) = Some (sta, effs)"
    and d1: "scheduled_delays effs = map (\<lambda>k. min (1000 * 2 ^ k) 30000) [0..<10]"
    and a1: "reconnectAttempts sta = 10"
    and s1: "sockets sta = (ss @ replicate 10 CLOSED) @ [CONNECTING]"
    and t1: "timers sta = []"
    unfolding dl by auto
  have c1: "set (ss @ replicate 10 CLOSED) \<subseteq> {CLOSED}"
    using assms(3) by auto
  from terminal_close [OF s1 _ c1 t1] a1 obtain stb where
    r2: "step sta (SocketClose (length (ss @ replicate 10 CLOSED))) = Some (stb, [ConsoleLog])"
    and e2: "error stb = Some ''Failed to connect after multiple attempts''"
    and t2: "timers stb = []" and s2: "set (sockets stb) \<subseteq> {CLOSED}"
    by auto
  have run2: "run st (close_cycles (length ss) (nextTimer st) 10 @ [SocketClose (length ss + 10)])
      = Some (stb, effs @ [[ConsoleLog]])"
    unfolding run_append using r1 r2 by simp
  have quiet: "\<forall>ev. step stb ev \<noteq> None \<longrightarrow> ev = Mount \<or> ev = Unmount"
    using all_closed_no_event [OF s2 t2] by blast
  have 2: "\<exists>st' effs. run st (close_cycles (length ss) (nextTimer st) 10 @ [SocketClose (length ss + 10)])
              = Some (st', effs @ [[ConsoleLog]])
            \<and> scheduled_delays effs = map (\<lambda>k. min (1000 * 2 ^ k) 30000) [0..<10]
            \<and> error st' = Some ''Failed to connect after multiple attempts''
            \<and> timers st' = []
            \<and> (\<forall>ev. step st' ev \<noteq> None \<longrightarrow> ev = Mount \<or> ev = Unmount)"
    using run2 d1 e2 t2 quiet by blast
  have 3: "reconnect_delay k = min (1000 * 2 ^ k) 30000"
    by (simp add: reconnect_delay_def)
  have 4: "map reconnect_delay [0, 1, 2] = [1000, 2000, 4000]"
    by (simp add: reconnect_delay_def)
  have 5: "reconnectAttempts (fst (onopen st0)) = 0"
    by (simp add: onopen_def)
  have 6: "10 \<le> reconnectAttempts st0 \<longrightarrow>
          snd (onclose st0) = [ConsoleLog]
          \<and> timers (fst (onclose st0)) = timers st0
          \<and> error (fst (onclose st0)) = Some ''Failed to connect after multiple attempts''"
    by (simp add: onclose_def maxAttempts_def Let_def)
  have 7: "step st0 (SocketOpen i) = Some (st1, e1) \<longrightarrow> reconnectAttempts st1 = 0"
    by (auto simp: onopen_def split: if_splits)
  have 8: "Mount \<notin> set evs \<and> run st evs = Some (st2, effs2) \<longrightarrow>
          scheduled_delays effs2 = expected_delays 0 evs"
    using single_run [OF single_connection_start [OF assms(1,2,3,4,6)]] by blast
  from 1 2 3 4 5 6 7 8 reconnect_delay_mono [of k] reconnect_delay_cap [of k] show ?thesis
    by blast
qed

lemma mounted_client_eq:
  "mounted_client = (initial_client True)\<lparr>sockets := [CONNECTING], wsRef := Some 0\<rparr>"
  by (simp add: mounted_client_def connect_def initial_client_def)

text \<open>
  The theorem on the freshly mounted client: three consecutive closes wait 1000,
  2000 and 4000 ms; after ten reconnects the eleventh close reports the error and
  leaves neither a timer nor a socket that could fire; a close at a counter of 10
  schedules nothing; the open event of the second socket takes the counter from 1
  to 0; and three closes with an open after the first wait 1000, 1000 and 2000 ms.
\<close>

theorem reconnect_backoff_witness:
  "(\<exists>st' effs. run mounted_client
        [SocketClose 0, TimerFire 1, SocketClose 1, TimerFire 2, SocketClose 2, TimerFire 3]
          = Some (st', effs)
      \<and> scheduled_delays effs = [1000, 2000, 4000]
      \<and> reconnectAttempts st' = 3)
   \<and> (\<exists>st' effs. run mounted_client (close_cycles 0 1 10 @ [SocketClose 10])
          = Some (st', effs @ [[ConsoleLog]])
      \<and> error st' = Some ''Failed to connect after multiple attempts''
      \<and> step st' (TimerFire 11) = None
      \<and> step st' (SocketOpen 10) = None)
   \<and> snd (onclose (mounted_client\<lparr>reconnectAttempts := 10\<rparr>)) = [ConsoleLog]
   \<and> map_option fst (run mounted_client [SocketClose 0, TimerFire 1]) = Some reconnecting_client
   \<and> reconnectAttempts reconnecting_client = 1
   \<and> (\<exists>st1 e1. step reconnecting_client (SocketOpen 1) = Some (st1, e1)
        \<and> reconnectAttempts st1 = 0)
   \<and> (\<exists>st2 effs2. run mounted_client reopened_trace = Some (st2, effs2)
        \<and> scheduled_delays effs2 = [1000, 1000, 2000])"
proof -
  have a: "sockets mounted_client = [] @ [CONNECTING]" "CONNECTING \<noteq> CLOSED"
    "set [] \<subseteq> {CLOSED}" "timers mounted_client = []" "url_valid mounted_client"
    "reconnectAttempts mounted_client = 0" "(3::nat) \<le> 10"
    by (simp_all add: mounted_client_eq initial_client_def)
  have n: "nextTimer mounted_client = 1"
    by (simp add: mounted_client_eq initial_client_def)
  have c: "close_cycles 0 1 3
      = [SocketClose 0, TimerFire 1, SocketClose 1, TimerFire 2, SocketClose 2, TimerFire 3]"
    by (simp add: close_cycles_def upt_conv_Cons del: upt_Suc)
  have u: "[0..<3] = [0, 1, 2::nat]"
    by (simp add: upt_conv_Cons del: upt_Suc)
  have reach: "map_option fst (run mounted_client [SocketClose 0, TimerFire 1]) = Some reconnecting_client"
    by (simp add: mounted_client_eq reconnecting_client_def initial_client_def onclose_def
        maxAttempts_def reconnect_delay_def reconnect_timer_def connect_def Let_def)
  have att: "reconnectAttempts reconnecting_client = 1"
    by (simp add: reconnecting_client_def initial_client_def)
  have so: "step reconnecting_client (SocketOpen 1)
      = Some (fst (onopen (reconnecting_client\<lparr>sockets := [CLOSED, OPEN]\<rparr>)),
              snd (onopen (reconnecting_client\<lparr>sockets := [CLOSED, OPEN]\<rparr>)))"
    by (simp add: reconnecting_client_def initial_client_def)
  have "\<exists>st2 effs2. run mounted_client reopened_trace = Some (st2, effs2)"
    by (simp add: reopened_trace_def mounted_client_eq initial_client_def onclose_def onopen_def
        maxAttempts_def reconnect_delay_def reconnect_timer_def connect_def Let_def)
  then obtain S E where rr: "run mounted_client reopened_trace = Some (S, E)"
    by blast
  have nm: "Mount \<notin> set reopened_trace"
    by (simp add: reopened_trace_def)
  have ex: "expected_delays 0 reopened_trace = [1000, 1000, 2000]"
    by (simp add: reopened_trace_def)
  note inst = reconnect_backoff [OF a, of 0 "mounted_client\<lparr>reconnectAttempts := 10\<rparr>" 1
      "fst (onopen (reconnecting_client\<lparr>sockets := [CLOSED, OPEN]\<rparr>))"
      "snd (onopen (reconnecting_client\<lparr>sockets := [CLOSED, OPEN]\<rparr>))" reopened_trace S E]
  note inst2 = reconnect_backoff [OF a, of 0 reconnecting_client 1
      "fst (onopen (reconnecting_client\<lparr>sockets := [CLOSED, OPEN]\<rparr>))"
      "snd (onopen (reconnecting_client\<lparr>sockets := [CLOSED, OPEN]\<rparr>))" reopened_trace S E]
  from inst
  have "\<exists>st' effs. run mounted_client
          (close_cycles (length ([]::ready_state list)) (nextTimer mounted_client) 3) = Some (st', effs)
      \<and> scheduled_delays effs = map (\<lambda>k. min (1000 * 2 ^ k) 30000) [0..<3]
      \<and> reconnectAttempts st' = 3"
    by (rule conjunct1)
  then have "\<exists>st' effs. run mounted_client
          [SocketClose 0, TimerFire 1, SocketClose 1, TimerFire 2, SocketClose 2, TimerFire 3]
            = Some (st', effs)
      \<and> scheduled_delays effs = map (\<lambda>k. min (1000 * 2 ^ k) 30000) [0, 1, 2]
      \<and> reconnectAttempts st' = 3"
    by (simp only: n list.size c u)
  then have 1: "\<exists>st' effs. run mounted_client
        [SocketClose 0, TimerFire 1, SocketClose 1, TimerFire 2, SocketClose 2, TimerFire 3]
          = Some (st', effs)
      \<and> scheduled_delays effs = [1000, 2000, 4000]
      \<and> reconnectAttempts st' = 3"
    by simp
  from inst
  have "\<exists>st' effs. run mounted_client
          (close_cycles (length ([]::ready_state list)) (nextTimer mounted_client) 10
             @ [SocketClose (length ([]::ready_state list) + 10)])
            = Some (st', effs @ [[ConsoleLog]])
      \<and> scheduled_delays effs = map (\<lambda>k. min (1000 * 2 ^ k) 30000) [0..<10]
      \<and> error st' = Some ''Failed to connect after multiple attempts''
      \<and> timers st' = []
      \<and> (\<forall>ev. step st' ev \<noteq> None \<longrightarrow> ev = Mount \<or> ev = Unmount)"
    by blast
  then obtain st' effs where
    r: "run mounted_client (close_cycles 0 1 10 @ [SocketClose 10]) = Some (st', effs @ [[ConsoleLog]])"
    and e: "error st' = Some ''Failed to connect after multiple attempts''"
    and q: "\<forall>ev. step st' ev \<noteq> None \<longrightarrow> ev = Mount \<or> ev = Unmount"
    unfolding n list.size by auto
  have "step st' (TimerFire 11) = None" "step st' (SocketOpen 10) = None"
    using q by blast+
  with r e have 2: "\<exists>st' effs. run mounted_client (close_cycles 0 1 10 @ [SocketClose 10])
          = Some (st', effs @ [[ConsoleLog]])
      \<and> error st' = Some ''Failed to connect after multiple attempts''
      \<and> step st' (TimerFire 11) = None
      \<and> step st' (SocketOpen 10) = None"
    by blast
  from inst have 3: "snd (onclose (mounted_client\<lparr>reconnectAttempts := 10\<rparr>)) = [ConsoleLog]"
    by simp
  from inst2 so
  have "reconnectAttempts (fst (onopen (reconnecting_client\<lparr>sockets := [CLOSED, OPEN]\<rparr>))) = 0"
    by blast
  with so have 4: "\<exists>st1 e1. step reconnecting_client (SocketOpen 1) = Some (st1, e1)
        \<and> reconnectAttempts st1 = 0"
    by blast
  from inst nm rr have "scheduled_delays E = expected_delays 0 reopened_trace"
    by blast
  with rr ex have 5: "\<exists>st2 effs2. run mounted_client reopened_trace = Some (st2, effs2)
        \<and> scheduled_delays effs2 = [1000, 1000, 2000]"
    by simp
  from 1 2 3 reach att 4 5 show ?thesis by blast
qed

text \<open>
  Outside the theorem: the effect run a second time. The cleanup leaves the first
  socket closing with its handlers attached, the second mount creates a second
  socket, and the two closes that follow find the counter at 0 both times: both
  wait 1000 ms, and two timers are pending.
\<close>

theorem second_mount_two_closes:
  "map_option (scheduled_delays \<circ> snd) (run (initial_client True) second_mount_trace)
     = Some [1000, 1000]
   \<and> map_option (timers \<circ> fst) (run (initial_client True) second_mount_trace)
     = Some [(1, 1000), (2, 1000)]"
  by (simp add: second_mount_trace_def initial_client_def connect_def cleanup_def close_socket_def
      onclose_def maxAttempts_def reconnect_delay_def scheduled_delays_def Let_def)

text \<open>
  C9. The cleanup clears the stored timer and closes the stored socket, but the
  handlers stay on the socket. The close event that follows the teardown runs
  \<^verbatim>\<open>onclose\<close>, which schedules a reconnect as after any other close; the timer
  creates a new socket, and a frame on it reaches the subscriber: the callback runs
  and refetches positions after the teardown.
\<close>

theorem callback_after_teardown:
  "map_option snd (run (initial_client True) teardown_trace)
     = Some [[NewWebSocket 0], [ConsoleLog], [CloseWebSocket 0],
             [ConsoleLog, ConsoleLog, SetTimeout 1 1000], [NewWebSocket 1], [ConsoleLog],
             [OnMessage late_frame, RefetchPositions]]"
  by (simp add: teardown_trace_def late_frame_def initial_client_def initial_app_def connect_def
      onopen_def cleanup_def close_socket_def onclose_def maxAttempts_def reconnect_delay_def
      reconnect_timer_def onmessage_def handleWebSocketMessage_def envelope_def
      Let_def)

text \<open>
  What the cleanup does achieve: the timer named by \<^verbatim>\<open>reconnectTimeoutRef\<close> is
  no longer pending, the socket named by \<^verbatim>\<open>wsRef\<close> is closing or closed, so the
  platform delivers no further frame and no open event on that socket, and the
  only calls on the channel are the \<^verbatim>\<open>clearTimeout\<close> and the \<^verbatim>\<open>close\<close>.
\<close>

theorem cleanup_cancels_and_closes:
  "(reconnectTimeoutRef st = Some t \<longrightarrow> t \<notin> fst ` set (timers (fst (cleanup st))))
   \<and> (wsRef st = Some i \<and> i < length (sockets st) \<longrightarrow>
        (sockets (fst (cleanup st)) ! i = CLOSING \<or> sockets (fst (cleanup st)) ! i = CLOSED)
        \<and> step (fst (cleanup st)) (SocketMessage i parsed) = None
        \<and> step (fst (cleanup st)) (SocketOpen i) = None)
   \<and> filter channel_call (snd (cleanup st))
       = (case reconnectTimeoutRef st of None \<Rightarrow> [] | Some t \<Rightarrow> [ClearTimeout t])
         @ (case wsRef st of None \<Rightarrow> [] | Some i \<Rightarrow> [CloseWebSocket i])"
proof -
  have 1: "reconnectTimeoutRef st = Some t \<longrightarrow> t \<notin> fst ` set (timers (fst (cleanup st)))"
    by (auto simp: cleanup_def split: option.splits)
  have s: "sockets (fst (cleanup st)) = close_socket (sockets st) i" if "wsRef st = Some i"
    using that by (simp add: cleanup_def split: option.splits)
  have c: "close_socket ss i ! i = CLOSING \<or> close_socket ss i ! i = CLOSED" if "i < length ss" for ss
    using that by (cases "ss ! i") (simp_all add: close_socket_def)
  have 2: "wsRef st = Some i \<and> i < length (sockets st) \<longrightarrow>
        (sockets (fst (cleanup st)) ! i = CLOSING \<or> sockets (fst (cleanup st)) ! i = CLOSED)
        \<and> step (fst (cleanup st)) (SocketMessage i parsed) = None
        \<and> step (fst (cleanup st)) (SocketOpen i) = None"
    using s c [of "sockets st"] by auto
  have 3: "filter channel_call (snd (cleanup st))
       = (case reconnectTimeoutRef st of None \<Rightarrow> [] | Some t \<Rightarrow> [ClearTimeout t])
         @ (case wsRef st of None \<Rightarrow> [] | Some i \<Rightarrow> [CloseWebSocket i])"
    by (simp add: cleanup_def split: option.splits)
  from 1 2 3 show ?thesis by blast
qed

text \<open>
  The theorem on the client that waits for its reconnect timer (the timer is
  cancelled and cannot fire) and on the client with an open socket (the socket is
  closing and delivers no frame). Both states are reached from the initial one.
\<close>

theorem cleanup_cancels_and_closes_witness:
  "map_option fst (run (initial_client True) [Mount, SocketClose 0]) = Some waiting_client
   \<and> timers (fst (cleanup waiting_client)) = []
   \<and> snd (cleanup waiting_client) = [ClearTimeout 1, CloseWebSocket 0]
   \<and> step (fst (cleanup waiting_client)) (TimerFire 1) = None
   \<and> map_option fst (run (initial_client True) [Mount, SocketOpen 0]) = Some open_client
   \<and> sockets (fst (cleanup open_client)) = [CLOSING]
   \<and> snd (cleanup open_client) = [CloseWebSocket 0]
   \<and> step (fst (cleanup open_client)) (SocketMessage 0 (Inr late_frame)) = None"
proof -
  have r: "map_option fst (run (initial_client True) [Mount, SocketClose 0]) = Some waiting_client"
    "map_option fst (run (initial_client True) [Mount, SocketOpen 0]) = Some open_client"
    by (simp_all add: waiting_client_def open_client_def initial_client_def connect_def
        onclose_def onopen_def maxAttempts_def reconnect_delay_def Let_def)
  have a: "reconnectTimeoutRef waiting_client = Some 1"
    "wsRef open_client = Some 0 \<and> 0 < length (sockets open_client)"
    by (simp_all add: waiting_client_def open_client_def initial_client_def)
  have b: "snd (cleanup waiting_client) = [ClearTimeout 1, CloseWebSocket 0]"
    "timers (fst (cleanup waiting_client)) = []"
    "sockets (fst (cleanup open_client)) = [CLOSING]"
    "snd (cleanup open_client) = [CloseWebSocket 0]"
    by (simp_all add: waiting_client_def open_client_def initial_client_def cleanup_def
        close_socket_def)
  show ?thesis
    using cleanup_cancels_and_closes [of waiting_client 1 0 "Inr late_frame"]
      cleanup_cancels_and_closes [of open_client 1 0 "Inr late_frame"] a b r
    by simp
qed

end
